theory Spec2Isabelle
  imports Complex_Main
begin

section \<open>The site smoke test: scripts/check-site.sh\<close>

text \<open>
  The script probes two pages with curl, which writes each HTTP status as three decimal
  digits (\<open>%{http_code}\<close>, \<open>000\<close> when no response came), and compares each
  with \<open>-ne 200\<close>, a numeric test. The two statuses are therefore numbers; the model
  takes them as naturals, after the two probes (under \<open>set -e\<close> a probe that fails
  ends the script with the status of curl, before any test). What the script writes to
  standard output is returned with its exit status.
\<close>

definition digit :: "nat \<Rightarrow> char" where
  "digit d = char_of (48 + d)"

definition http_code :: "nat \<Rightarrow> string" where
  "http_code n = [digit (n div 100 mod 10), digit (n div 10 mod 10), digit (n mod 10)]"

definition check_site :: "string \<Rightarrow> nat \<Rightarrow> nat \<Rightarrow> string list \<times> nat" where
  "check_site BASE_URL HTTP1 HTTP2 =
     (let out = [''Checking '' @ BASE_URL] in
      if HTTP1 \<noteq> 200 then (out @ [''Index returned HTTP '' @ http_code HTTP1], 2)
      else if HTTP2 \<noteq> 200 then (out @ [''Evidence returned HTTP '' @ http_code HTTP2], 3)
      else (out @ [''Both pages returned 200 OK''], 0))"

section \<open>The dual update of the CMDP controller (README, 13.3)\<close>

text \<open>
  \<^verbatim>\<open>
  \<lambda> = max(0, \<lambda> + \<eta> * (observed_cost - B))
  \<mu> = max(0, \<mu> + \<eta> * (observed_risk - \<alpha>))
  \<close>
  Numbers are modelled as reals: the rounding of the host's floating point is abstracted.
\<close>

record DualState =
  lambda :: real
  mu :: real
  tau :: real

definition dual_step :: "real \<Rightarrow> real \<Rightarrow> real \<Rightarrow> real \<Rightarrow> real" where
  "dual_step v eta observed cap = max 0 (v + eta * (observed - cap))"

definition update_duals :: "DualState \<Rightarrow> real \<Rightarrow> real \<Rightarrow> real \<Rightarrow> real \<Rightarrow> real \<Rightarrow> DualState" where
  "update_duals ds eta observed_cost B observed_risk alpha =
     ds\<lparr>lambda := dual_step (lambda ds) eta observed_cost B,
        mu := dual_step (mu ds) eta observed_risk alpha\<rparr>"

section \<open>Python floats\<close>

text \<open>
  The numbers of the README's Python are floats, IEEE doubles. A finite double is modelled
  by the rational it denotes, and an operation computes exactly and then rounds to the
  nearest double, ties to even: 53 bits of significand, and the fixed spacing of the
  subnormals below \<open>2^-1022\<close>. Infinities and NaN are not modelled: a result beyond the
  largest double stays finite here. A literal such as \<open>0.3\<close> is the rounding of the
  decimal.
\<close>

text \<open>The number of bits of a positive integer.\<close>

function bits :: "int \<Rightarrow> int" where
  "bits p = (if p \<le> 0 then 0 else 1 + bits (p div 2))"
  by pat_completeness auto
termination
  by (relation "measure nat") auto

declare bits.simps [simp del]

text \<open>The exponent of a positive rational: the greatest \<open>e\<close> with \<open>2^e \<le> x\<close>.\<close>

definition ilog2 :: "rat \<Rightarrow> int" where
  "ilog2 x =
     (let (p, q) = quotient_of x; e = bits p - bits q
      in if 2 powi e \<le> x then e else e - 1)"

text \<open>The nearest integer, the even one on a tie.\<close>

definition ties_even :: "rat \<Rightarrow> int" where
  "ties_even y =
     (let f = \<lfloor>y\<rfloor>; d = y - of_int f
      in if d < 1 / 2 then f else if 1 / 2 < d then f + 1 else if even f then f else f + 1)"

text \<open>Rounding to a double: to a multiple of the unit in the last place of the exponent.\<close>

definition rd :: "rat \<Rightarrow> rat" where
  "rd x =
     (if x = 0 then 0
      else let e = max (ilog2 \<bar>x\<bar>) (- 1022); u = 2 powi (e - 52)
           in of_int (ties_even (x / u)) * u)"

definition fmul :: "rat \<Rightarrow> rat \<Rightarrow> rat" where
  "fmul x y = rd (x * y)"

definition fadd :: "rat \<Rightarrow> rat \<Rightarrow> rat" where
  "fadd x y = rd (x + y)"

definition fsub :: "rat \<Rightarrow> rat \<Rightarrow> rat" where
  "fsub x y = rd (x - y)"

text \<open>Half a unit in the last place of the doubles between 1 and 2.\<close>

definition half_ulp :: rat where
  "half_ulp = 1 / 2 ^ 53"

section \<open>The Dynamic-K selector (README, 13.1)\<close>

text \<open>
  \<^verbatim>\<open>
  def dynamic_k(query, ctx):
      r = 0.0
      r += 0.3 * is_long(query)
      r += 0.4 * retrieval_thin(ctx)
      r += 0.3 * domain_risk(ctx.domain)
      return 1 if r < 0.33 else (3 if r < 0.66 else 5)
  \<close>
  The helpers \<open>is_long\<close>, \<open>retrieval_thin\<close> and \<open>domain_risk\<close> are not in the
  repository: they are parameters, total, with results that a double holds (a bool counts
  as 0 or 1). The pipeline
  passes \<open>ctx=None\<close> by default, and \<open>ctx.domain\<close> raises on it: the context is an
  option and that read is an error branch, reached after the first two helpers have been
  called. There is no route among the arguments: the third term reads the domain of the
  context.
\<close>

datatype py_error = AttributeError

record 'd ctx =
  domain :: 'd

text \<open>The three updates of \<open>r\<close>, each a product and a sum of doubles.\<close>

definition risk_estimate :: "rat \<Rightarrow> rat \<Rightarrow> rat \<Rightarrow> rat" where
  "risk_estimate long thin risky =
     fadd (fadd (fadd 0 (fmul (rd (3 / 10)) long)) (fmul (rd (4 / 10)) thin))
       (fmul (rd (3 / 10)) risky)"

definition k_of_risk :: "rat \<Rightarrow> nat" where
  "k_of_risk r = (if r < rd (33 / 100) then 1 else (if r < rd (66 / 100) then 3 else 5))"

definition dynamic_k ::
    "('q \<Rightarrow> rat) \<Rightarrow> (('d, 'm) ctx_scheme option \<Rightarrow> rat) \<Rightarrow> ('d \<Rightarrow> rat) \<Rightarrow>
     'q \<Rightarrow> ('d, 'm) ctx_scheme option \<Rightarrow> py_error + nat" where
  "dynamic_k is_long retrieval_thin domain_risk query ctx =
     (let long = is_long query; thin = retrieval_thin ctx in
      case ctx of
        None \<Rightarrow> Inl AttributeError
      | Some c \<Rightarrow> Inr (k_of_risk (risk_estimate long thin (domain_risk (domain c)))))"

section \<open>The evidence page: renderHallucinationTable\<close>

text \<open>
  The page fetches \<open>results/results.json\<close> and hands the parsed value to
  \<open>renderHallucinationTable\<close>. There are two versions of the function: the one of
  \<open>mstack-site/evidence.js\<close> and a guarded one (the second evidence script) that reads
  \<open>SelfConsistency\<close> and \<open>JudgeGate\<close> with \<open>?.\<close> and puts \<open>|| 0\<close> before
  \<open>toFixed\<close>.
\<close>

subsection \<open>JSON values and the JavaScript operations the function uses\<close>

text \<open>
  An object is the list of its own properties in the order \<open>for ... in\<close> enumerates them
  (the keys of an object are distinct). A number is a rational: the rounding and the
  overflow of IEEE doubles are abstracted, and \<open>-0\<close> is \<open>0\<close> (the two print alike and
  are both falsy). \<open>undefined\<close> is \<open>None\<close> of \<open>json option\<close>.
\<close>

datatype json = JNull | JBool bool | JNum rat | JStr string | JArr "json list"
  | JObj "(string \<times> json) list"

datatype jsnum = NaN | Fin rat | Inf bool

datatype js_error = TypeError

text \<open>
  Two operations of the language are left to the engine, since they print and parse
  doubles: \<open>StringToNumber\<close>, reached when a rate is a string or an array, and
  \<open>Number::toString\<close>, reached for an array of numbers and by \<open>toFixed\<close> from
  \<open>10^21\<close> on.
\<close>

record engine =
  StringToNumber :: "string \<Rightarrow> jsnum"
  NumberToString :: "rat \<Rightarrow> string"

fun dec :: "nat \<Rightarrow> string" where
  "dec n = (if n < 10 then [digit n] else dec (n div 10) @ [digit (n mod 10)])"

declare dec.simps [simp del]

text \<open>
  The own enumerable properties: of an object, of an array (its indices) and of a string
  (its indices, each a one-character string). The function reads the enumerated keys and
  the names \<open>Base\<close>, \<open>MStack\<close>, \<open>SelfConsistency\<close>, \<open>JudgeGate\<close> and
  \<open>hallucination_rate\<close>, none of which is inherited from a prototype, so a read is a
  lookup among the own properties.
\<close>

fun entries :: "json \<Rightarrow> (string \<times> json) list" where
  "entries (JObj kvs) = kvs"
| "entries (JArr xs) = zip (map dec [0..<length xs]) xs"
| "entries (JStr s) = zip (map dec [0..<length s]) (map (\<lambda>c. JStr [c]) s)"
| "entries _ = []"

definition for_in :: "json \<Rightarrow> string list" where
  "for_in v = map fst (entries v)"

fun truthy :: "json option \<Rightarrow> bool" where
  "truthy None = False"
| "truthy (Some JNull) = False"
| "truthy (Some (JBool b)) = b"
| "truthy (Some (JNum q)) = (q \<noteq> 0)"
| "truthy (Some (JStr s)) = (s \<noteq> [])"
| "truthy (Some (JArr xs)) = True"
| "truthy (Some (JObj kvs)) = True"

text \<open>\<open>x.k\<close> throws a TypeError on \<open>undefined\<close> and \<open>null\<close>; \<open>x?.k\<close> is \<open>undefined\<close> there.\<close>

fun member :: "json option \<Rightarrow> string \<Rightarrow> js_error + json option" where
  "member None k = Inl TypeError"
| "member (Some JNull) k = Inl TypeError"
| "member (Some v) k = Inr (map_of (entries v) k)"

fun member_opt :: "json option \<Rightarrow> string \<Rightarrow> js_error + json option" where
  "member_opt None k = Inr None"
| "member_opt (Some JNull) k = Inr None"
| "member_opt (Some v) k = Inr (map_of (entries v) k)"

fun join :: "string list \<Rightarrow> string" where
  "join [] = []"
| "join [s] = s"
| "join (s # ss) = s @ '','' @ join ss"

text \<open>An array converts to a string by \<open>join\<close>, where \<open>null\<close> elements are empty.\<close>

fun ToString :: "engine \<Rightarrow> json \<Rightarrow> string" where
  "ToString E JNull = ''null''"
| "ToString E (JBool b) = (if b then ''true'' else ''false'')"
| "ToString E (JNum q) = NumberToString E q"
| "ToString E (JStr s) = s"
| "ToString E (JArr xs) =
     join (map (\<lambda>x. case x of JNull \<Rightarrow> [] | _ \<Rightarrow> ToString E x) xs)"
| "ToString E (JObj kvs) = ''[object Object]''"

fun ToNumber :: "engine \<Rightarrow> json option \<Rightarrow> jsnum" where
  "ToNumber E None = NaN"
| "ToNumber E (Some JNull) = Fin 0"
| "ToNumber E (Some (JBool b)) = Fin (if b then 1 else 0)"
| "ToNumber E (Some (JNum q)) = Fin q"
| "ToNumber E (Some (JStr s)) = StringToNumber E s"
| "ToNumber E (Some (JArr xs)) = StringToNumber E (ToString E (JArr xs))"
| "ToNumber E (Some (JObj kvs)) = NaN"

text \<open>\<open>x * 100\<close> and \<open>x || 0\<close> on numbers: \<open>NaN\<close> and zero are falsy.\<close>

fun times100 :: "jsnum \<Rightarrow> jsnum" where
  "times100 NaN = NaN"
| "times100 (Fin q) = Fin (q * 100)"
| "times100 (Inf neg) = Inf neg"

fun or0 :: "jsnum \<Rightarrow> jsnum" where
  "or0 NaN = Fin 0"
| "or0 (Fin q) = (if q = 0 then Fin 0 else Fin q)"
| "or0 (Inf neg) = Inf neg"

text \<open>
  \<open>toFixed(1)\<close>: the integer \<open>n\<close> with \<open>n / 10\<close> closest to the absolute value, the
  larger one on a tie, printed with one digit after the point.
\<close>

definition toFixed1 :: "engine \<Rightarrow> jsnum \<Rightarrow> string" where
  "toFixed1 E x =
     (case x of
        NaN \<Rightarrow> ''NaN''
      | Inf neg \<Rightarrow> (if neg then ''-Infinity'' else ''Infinity'')
      | Fin q \<Rightarrow>
          (let s = (if q < 0 then ''-'' else ''''); a = \<bar>q\<bar> in
           if 10 ^ 21 \<le> a then s @ NumberToString E a
           else let n = nat \<lfloor>a * 10 + 1 / 2\<rfloor>
                in s @ dec (n div 10) @ ''.'' @ [digit (n mod 10)]))"

subsection \<open>The two versions\<close>

text \<open>
  A row is the list of the HTML of its cells, as the template of \<open>row.innerHTML\<close> puts
  it between \<open><td>\<close> and \<open></td>\<close>; the row that \<open>insertRow\<close> has just made has no
  cell. The table body is the list of its rows, \<open>None\<close> when \<open>querySelector\<close> found
  no element. An exception leaves the rows inserted so far, so the function returns the
  table body together with the exception, if any.
\<close>

type_synonym row = "string list"

definition and_then :: "js_error + 'a \<Rightarrow> ('a \<Rightarrow> js_error + 'b) \<Rightarrow> js_error + 'b" where
  "and_then m f = (case m of Inl e \<Rightarrow> Inl e | Inr x \<Rightarrow> f x)"

text \<open>The template of the guarded version (the second script, lines 25 to 31).\<close>

definition row_cells :: "engine \<Rightarrow> json option \<Rightarrow> string \<Rightarrow> js_error + row" where
  "row_cells E entry key =
     and_then (and_then (member entry ''Base'') (\<lambda>s. member s ''hallucination_rate'')) (\<lambda>base.
     and_then (and_then (member entry ''SelfConsistency'') (\<lambda>s. member_opt s ''hallucination_rate'')) (\<lambda>sc.
     and_then (and_then (member entry ''JudgeGate'') (\<lambda>s. member_opt s ''hallucination_rate'')) (\<lambda>jg.
     and_then (and_then (member entry ''MStack'') (\<lambda>s. member s ''hallucination_rate'')) (\<lambda>ms.
     Inr [key,
          toFixed1 E (or0 (times100 (ToNumber E base))) @ ''%'',
          toFixed1 E (or0 (times100 (ToNumber E sc))) @ ''%'',
          toFixed1 E (or0 (times100 (ToNumber E jg))) @ ''%'',
          ''<strong>'' @ toFixed1 E (or0 (times100 (ToNumber E ms))) @ ''%</strong>'']))))"

text \<open>The template of \<open>mstack-site/evidence.js\<close> (lines 24 to 30).\<close>

definition row_cells_site :: "engine \<Rightarrow> json option \<Rightarrow> string \<Rightarrow> js_error + row" where
  "row_cells_site E entry key =
     and_then (and_then (member entry ''Base'') (\<lambda>s. member s ''hallucination_rate'')) (\<lambda>base.
     and_then (and_then (member entry ''SelfConsistency'') (\<lambda>s. member s ''hallucination_rate'')) (\<lambda>sc.
     and_then (and_then (member entry ''JudgeGate'') (\<lambda>s. member s ''hallucination_rate'')) (\<lambda>jg.
     and_then (and_then (member entry ''MStack'') (\<lambda>s. member s ''hallucination_rate'')) (\<lambda>ms.
     Inr [key,
          toFixed1 E (times100 (ToNumber E base)) @ ''%'',
          toFixed1 E (times100 (ToNumber E sc)) @ ''%'',
          toFixed1 E (times100 (ToNumber E jg)) @ ''%'',
          ''<strong>'' @ toFixed1 E (times100 (ToNumber E ms)) @ ''%</strong>'']))))"

text \<open>\<open>results[domain].Base && results[domain].MStack\<close>, the same in both versions.\<close>

definition guard :: "json option \<Rightarrow> js_error + bool" where
  "guard entry =
     and_then (member entry ''Base'') (\<lambda>b.
       if truthy b then and_then (member entry ''MStack'') (\<lambda>m. Inr (truthy m)) else Inr False)"

text \<open>The body of the loop: the test, \<open>insertRow\<close>, then the assignment of the template.\<close>

definition body :: "(json option \<Rightarrow> string \<Rightarrow> js_error + row) \<Rightarrow> json \<Rightarrow> string \<Rightarrow>
    row list option \<Rightarrow> row list option \<times> js_error option" where
  "body cells results key tableBody =
     (let entry = map_of (entries results) key in
      case guard entry of
        Inl e \<Rightarrow> (tableBody, Some e)
      | Inr False \<Rightarrow> (tableBody, None)
      | Inr True \<Rightarrow>
          (case tableBody of
             None \<Rightarrow> (None, Some TypeError)
           | Some rows \<Rightarrow>
               (case cells entry key of
                  Inl e \<Rightarrow> (Some (rows @ [[]]), Some e)
                | Inr r \<Rightarrow> (Some (rows @ [r]), None))))"

fun loop :: "(json option \<Rightarrow> string \<Rightarrow> js_error + row) \<Rightarrow> json \<Rightarrow> string list \<Rightarrow>
    row list option \<Rightarrow> row list option \<times> js_error option" where
  "loop cells results [] tableBody = (tableBody, None)"
| "loop cells results (key # rest) tableBody =
     (case body cells results key tableBody of
        (tb, Some e) \<Rightarrow> (tb, Some e)
      | (tb, None) \<Rightarrow> loop cells results rest tb)"

definition renderHallucinationTable ::
    "engine \<Rightarrow> json \<Rightarrow> row list option \<Rightarrow> row list option \<times> js_error option" where
  "renderHallucinationTable E results tableBody =
     loop (row_cells E) results (for_in results) tableBody"

definition renderHallucinationTable_site ::
    "engine \<Rightarrow> json \<Rightarrow> row list option \<Rightarrow> row list option \<times> js_error option" where
  "renderHallucinationTable_site E results tableBody =
     loop (row_cells_site E) results (for_in results) tableBody"

subsection \<open>What the rows are expected to be\<close>

text \<open>
  The words of the claims about the table, as definitions of their own: a read that
  never throws, the rate of a system in a domain entry, the test for a row, the cell of
  a rate, and the row of a domain key.
\<close>

definition lookup :: "json option \<Rightarrow> string \<Rightarrow> json option" where
  "lookup x k = (case x of None \<Rightarrow> None | Some v \<Rightarrow> map_of (entries v) k)"

definition rate :: "json option \<Rightarrow> string \<Rightarrow> json option" where
  "rate entry system = lookup (lookup entry system) ''hallucination_rate''"

definition has_both :: "json option \<Rightarrow> bool" where
  "has_both entry \<longleftrightarrow> truthy (lookup entry ''Base'') \<and> truthy (lookup entry ''MStack'')"

definition percent :: "engine \<Rightarrow> json option \<Rightarrow> string" where
  "percent E x = toFixed1 E (or0 (times100 (ToNumber E x))) @ ''%''"

definition expected_row :: "engine \<Rightarrow> json option \<Rightarrow> string \<Rightarrow> row" where
  "expected_row E entry key =
     [key, percent E (rate entry ''Base''), percent E (rate entry ''SelfConsistency''),
      percent E (rate entry ''JudgeGate''),
      ''<strong>'' @ percent E (rate entry ''MStack'') @ ''</strong>'']"

text \<open>
  A domain entry is complete when its \<open>SelfConsistency\<close> and \<open>JudgeGate\<close> are neither
  missing nor \<open>null\<close> and its four rates convert to numbers.
\<close>

definition present :: "json option \<Rightarrow> bool" where
  "present x \<longleftrightarrow> x \<noteq> None \<and> x \<noteq> Some JNull"

definition numeric :: "engine \<Rightarrow> json option \<Rightarrow> bool" where
  "numeric E x \<longleftrightarrow> ToNumber E x \<noteq> NaN"

definition complete :: "engine \<Rightarrow> json option \<Rightarrow> bool" where
  "complete E entry \<longleftrightarrow>
     present (lookup entry ''SelfConsistency'') \<and> present (lookup entry ''JudgeGate'') \<and>
     numeric E (rate entry ''Base'') \<and> numeric E (rate entry ''SelfConsistency'') \<and>
     numeric E (rate entry ''JudgeGate'') \<and> numeric E (rate entry ''MStack'')"

text \<open>
  Two results objects: one domain without, one with, the two middle systems; and an
  engine for examples that reach neither of its operations.
\<close>

definition results_partial :: json where
  "results_partial =
     JObj [(''squad2'', JObj [(''Base'', JObj [(''hallucination_rate'', JNum (1 / 10))]),
                              (''MStack'', JObj [(''hallucination_rate'', JNum (1 / 20))])]),
           (''RCC_Curves'', JObj [(''M-Stack'', JObj [(''coverage'', JArr []), (''risk'', JArr [])])])]"

definition results_full :: json where
  "results_full =
     JObj [(''squad2'', JObj [(''Base'', JObj [(''hallucination_rate'', JNum (1 / 10))]),
                              (''SelfConsistency'', JObj [(''hallucination_rate'', JNum (2 / 25))]),
                              (''JudgeGate'', JObj [(''hallucination_rate'', JNum (3 / 40))]),
                              (''MStack'', JObj [(''hallucination_rate'', JNum (1 / 20))])])]"

definition no_engine :: engine where
  "no_engine = \<lparr>StringToNumber = (\<lambda>s. NaN), NumberToString = (\<lambda>q. [])\<rparr>"

section \<open>The orchestrator (README, 6)\<close>

text \<open>
  \<^verbatim>\<open>
  def pipeline(query, ctx=None, budget= {'tokens': 2000, 'latency_ms': 2000}, risk_cap=0.2):
      K = dynamic_k(query, ctx)             # 1, 3, or 5
      cands = [generate(query, ctx) for _ in range(K)]
      m1 = monitor(cands, ctx)              # variance, entropy, nli_contra, rag_coverage
      m2 = evaluate(cands, ctx)             # judge_score, prm_score, citation_score
      action = decide_cmdp(m1, m2, budget, risk_cap)
      y = execute(action, cands, query, ctx)  # verify/revise/abstain/emit
      learn.update(m1, m2, action, y)         # thresholds & calibration
      return y
  \<close>
  One pass, with no loop and no counter. The functions it calls other than \<open>dynamic_k\<close>
  are not in the repository: they are parameters, total. \<open>generate\<close> samples, so each
  of its \<open>K\<close> calls has its index as a further argument. \<open>learn.update\<close> changes the
  state of the learner, which is passed in and returned with \<open>y\<close>. The response of the
  API (README 14) carries an action that is one of \<open>emit|abstain|verify|revise\<close>.
\<close>

datatype action = Emit | Revise | Verify | Abstain

record budget =
  tokens :: int
  latency_ms :: int

record ('q, 'd, 'm, 'c, 's, 't, 'y, 'l) helpers =
  is_long :: "'q \<Rightarrow> rat"
  retrieval_thin :: "('d, 'm) ctx_scheme option \<Rightarrow> rat"
  domain_risk :: "'d \<Rightarrow> rat"
  generate :: "nat \<Rightarrow> 'q \<Rightarrow> ('d, 'm) ctx_scheme option \<Rightarrow> 'c"
  monitor :: "'c list \<Rightarrow> ('d, 'm) ctx_scheme option \<Rightarrow> 's"
  evaluate :: "'c list \<Rightarrow> ('d, 'm) ctx_scheme option \<Rightarrow> 't"
  decide_cmdp :: "'s \<Rightarrow> 't \<Rightarrow> budget \<Rightarrow> rat \<Rightarrow> action"
  execute :: "action \<Rightarrow> 'c list \<Rightarrow> 'q \<Rightarrow> ('d, 'm) ctx_scheme option \<Rightarrow> 'y"
  learn_update :: "'l \<Rightarrow> 's \<Rightarrow> 't \<Rightarrow> action \<Rightarrow> 'y \<Rightarrow> 'l"




text \<open>
  Helpers for the examples: a monitor that reports a coverage, a controller that verifies
  on low coverage and emits otherwise, an executor that returns the action with the first
  candidate, and a learner that records the actions.
\<close>

definition sample_helpers ::
    "(string, string, unit, string, rat, rat, action \<times> string, action list) helpers" where
  "sample_helpers =
     \<lparr>is_long = (\<lambda>q. if 200 < length q then 1 else 0),
      retrieval_thin = (\<lambda>ctx. 1),
      domain_risk = (\<lambda>d. if d = ''legal'' then 1 else 0),
      generate = (\<lambda>i q ctx. ''answer '' @ [digit i]),
      monitor = (\<lambda>cands ctx. 1 / 5),
      evaluate = (\<lambda>cands ctx. 1 / 2),
      decide_cmdp = (\<lambda>coverage judged b cap. if coverage < 1 / 2 then Verify else Emit),
      execute = (\<lambda>a cands q ctx. (a, hd cands)),
      learn_update = (\<lambda>seen m1 m2 a y. seen @ [a])\<rparr>"

section \<open>The CMDP controller\<close>

text \<open>
  The objective is in the README (13.3):
  \<^verbatim>\<open>
  L = U(a; x) - \<lambda> * (cost(x,a) - B) - \<mu> * (risk(x,a) - \<alpha>)
  \<close>
  with \<open>U\<close>, \<open>cost\<close> and \<open>risk\<close> not in the repository, hence parameters. The
  subtractions and products are those of doubles.
\<close>

definition lagrangian ::
    "(action \<Rightarrow> 'x \<Rightarrow> rat) \<Rightarrow> ('x \<Rightarrow> action \<Rightarrow> rat) \<Rightarrow> ('x \<Rightarrow> action \<Rightarrow> rat) \<Rightarrow>
     rat \<Rightarrow> rat \<Rightarrow> rat \<Rightarrow> rat \<Rightarrow> 'x \<Rightarrow> action \<Rightarrow> rat" where
  "lagrangian U cost risk l m B alpha x a =
     fsub (fsub (U a x) (fmul l (fsub (cost x a) B))) (fmul m (fsub (risk x a) alpha))"

text \<open>
  Modelled from the spec: the signals of the monitors that the Decision Controller reads
  (3, 4.6); the README has their names only, in the comments of the pipeline.
\<close>

record Signals =
  k_sample_variance :: rat
  entropy_prefix_slope :: rat
  contradiction_mass :: rat
  rag_coverage :: rat

text \<open>Modelled from the spec: the scores of the evaluators (3).\<close>

record Scores =
  judge :: rat
  prm :: rat
  citation_score :: rat

text \<open>
  Modelled from the spec: the policy of the controller (4.6): the utility, the cost and
  the risk proxies of the objective, and the high-water mark of the contradiction mass.
\<close>

record policy =
  base_utility :: "action \<Rightarrow> Signals \<times> Scores \<Rightarrow> rat"
  action_cost :: "Signals \<times> Scores \<Rightarrow> action \<Rightarrow> rat"
  action_risk :: "Signals \<times> Scores \<Rightarrow> action \<Rightarrow> rat"
  high_water :: rat

text \<open>
  Modelled from the spec: the snapshot of the duals and of the conformal threshold that a
  decision uses (3, \<open>thresholds_used\<close>).
\<close>

record thresholds_used =
  lambda_used :: rat
  mu_used :: rat
  tau_used :: rat

text \<open>Modelled from the spec: what the decision reads of the request (3).\<close>

record Request =
  context_supplied :: bool
  budget_cap :: rat
  risk_cap :: rat

text \<open>
  Modelled from the spec: what remains of the verify budget, of the revision budget and
  of the budget when the decision is taken (4.6).
\<close>

record remaining =
  verify_budget :: nat
  revise_budget :: nat
  remaining_budget :: rat

text \<open>
  Modelled from the spec: the tie-break of 4.6, missing like the rule it serves: the first
  action of greatest objective in a list given in the order of preference.
\<close>

fun best :: "(action \<Rightarrow> rat) \<Rightarrow> action \<Rightarrow> action list \<Rightarrow> action" where
  "best L a [] = a"
| "best L a (b # bs) = best L (if L a < L b then b else a) bs"

text \<open>
  Modelled from the spec: the decision rule of 4.6 (\<open>decide_cmdp\<close> is not in the
  repository), in its order of precedence.
  \<^enum> Coverage below the conformal threshold with a context supplied: verify if verify
    budget remains, else abstain.
  \<^enum> Contradiction mass above the high-water mark: revise if revision budget remains, else
    abstain.
  \<^enum> Otherwise the action of greatest objective among those whose cost is within the
    remaining budget, ties broken by emit, revise, verify, abstain. The objective is the
    Lagrangian of the README.
  \<^enum> Abstain if no action is within the budget.
\<close>

definition decide ::
    "policy \<Rightarrow> thresholds_used \<Rightarrow> Request \<Rightarrow> remaining \<Rightarrow> Signals \<times> Scores \<Rightarrow> action" where
  "decide P th req rem x =
     (if rag_coverage (fst x) < tau_used th \<and> context_supplied req then
        (if 0 < verify_budget rem then Verify else Abstain)
      else if high_water P < contradiction_mass (fst x) then
        (if 0 < revise_budget rem then Revise else Abstain)
      else
        (case filter (\<lambda>a. action_cost P x a \<le> remaining_budget rem)
                [Emit, Revise, Verify, Abstain] of
           [] \<Rightarrow> Abstain
         | a # as \<Rightarrow>
             best (lagrangian (base_utility P) (action_cost P) (action_risk P) (lambda_used th)
               (mu_used th) (budget_cap req) (risk_cap req) x) a as))"

text \<open>
  Modelled from the spec: the worst-case values that section 7 substitutes when an adapter
  fails. With them a policy, a request, two snapshots (the second the start-up values of
  section 3) and budgets for the examples.
\<close>

definition worst_inputs :: "Signals \<times> Scores" where
  "worst_inputs =
     (\<lparr>k_sample_variance = 1, entropy_prefix_slope = 1, contradiction_mass = 1,
        rag_coverage = 0\<rparr>,
      \<lparr>judge = 0, prm = 0, citation_score = 0\<rparr>)"

definition policy0 :: policy where
  "policy0 =
     \<lparr>base_utility = (\<lambda>a x. case a of Emit \<Rightarrow> 1 | Revise \<Rightarrow> 1 / 2 | Verify \<Rightarrow> 1 / 2 | Abstain \<Rightarrow> 0),
      action_cost = (\<lambda>x a. case a of Emit \<Rightarrow> 0 | Revise \<Rightarrow> 500 | Verify \<Rightarrow> 500 | Abstain \<Rightarrow> 0),
      action_risk = (\<lambda>x a. case a of Emit \<Rightarrow> 1 - judge (snd x) | _ \<Rightarrow> 0),
      high_water = 1 / 2\<rparr>"

definition request0 :: Request where
  "request0 = \<lparr>context_supplied = True, budget_cap = 2000, risk_cap = 1 / 4\<rparr>"

definition thresholds0 :: thresholds_used where
  "thresholds0 = \<lparr>lambda_used = 1, mu_used = 1, tau_used = 1 / 2\<rparr>"

definition startup :: thresholds_used where
  "startup = \<lparr>lambda_used = 0, mu_used = 0, tau_used = 0\<rparr>"

definition remaining0 :: remaining where
  "remaining0 = \<lparr>verify_budget = 1, revise_budget = 1, remaining_budget = 2000\<rparr>"

section \<open>The audit log\<close>

text \<open>
  Modelled from the spec: the Audit Logger (4.8, 6), of which the repository has only the
  JSON of a record (README 7). A record carries its content and \<open>prev_hash\<close>; the hash
  function, over the serialization of a whole record, and the genesis value are
  parameters. Appending computes \<open>prev_hash\<close> as the hash of the record before, or the
  genesis value for the first record.
\<close>

record ('c, 'h) LogRecord =
  content :: 'c
  prev_hash :: 'h

definition append_record ::
    "(('c, 'h) LogRecord \<Rightarrow> 'h) \<Rightarrow> 'h \<Rightarrow> ('c, 'h) LogRecord list \<Rightarrow> 'c \<Rightarrow>
     ('c, 'h) LogRecord list" where
  "append_record H genesis lg c =
     lg @ [\<lparr>content = c, prev_hash = (if lg = [] then genesis else H (last lg))\<rparr>]"

text \<open>
  Modelled from the spec: the log of a sequence of decisions: one record appended per
  completed decision, from the empty log.
\<close>

definition audit_log ::
    "(('c, 'h) LogRecord \<Rightarrow> 'h) \<Rightarrow> 'h \<Rightarrow> 'c list \<Rightarrow> ('c, 'h) LogRecord list" where
  "audit_log H genesis cs = foldl (append_record H genesis) [] cs"

text \<open>
  Modelled from the spec: the check of the chain (section 8): for the adjacent records
  \<open>i\<close> and \<open>i + 1\<close>, \<open>record[i+1].prev_hash == hash(record[i])\<close>.
\<close>

definition pair_ok ::
    "(('c, 'h) LogRecord \<Rightarrow> 'h) \<Rightarrow> ('c, 'h) LogRecord list \<Rightarrow> nat \<Rightarrow> bool" where
  "pair_ok H lg i \<longleftrightarrow> prev_hash (lg ! Suc i) = H (lg ! i)"

text \<open>
  Modelled from the spec: the chain is valid when its first record carries the genesis
  value and every adjacent pair passes the check.
\<close>

definition chain_ok ::
    "(('c, 'h) LogRecord \<Rightarrow> 'h) \<Rightarrow> 'h \<Rightarrow> ('c, 'h) LogRecord list \<Rightarrow> bool" where
  "chain_ok H genesis lg \<longleftrightarrow>
     (lg = [] \<or> prev_hash (hd lg) = genesis) \<and>
     list_all (pair_ok H lg) [0..<length lg - 1]"

text \<open>
  A log of two records under a hash that keeps everything (the content, a separator and
  the previous hash), and the same log with the content of its last record changed.
\<close>

definition tag_hash :: "(string, string) LogRecord \<Rightarrow> string" where
  "tag_hash r = content r @ ''<'' @ prev_hash r"

definition sample_log :: "(string, string) LogRecord list" where
  "sample_log = audit_log tag_hash ''genesis'' [''emit q1'', ''abstain q2'']"

definition tampered_log :: "(string, string) LogRecord list" where
  "tampered_log = sample_log[1 := (sample_log ! 1)\<lparr>content := ''emit q2''\<rparr>]"

section \<open>The claim graph\<close>

datatype label = Entail | Neutral | Contradict

record 'a Claim =
  claim_id :: nat
  source_candidate_id :: nat
  span :: 'a

text \<open>
  Modelled from the spec: the Claim Graph Builder (4.3), of which the README has one line
  (13.2, pairwise NLI between claims across candidates). Each candidate is decomposed
  into claims by a pluggable extractor, truncated to the max-claims cap with the earliest
  extracted kept; the claims are numbered in the order of extraction and carry the index
  of their candidate.
\<close>

definition extract_all :: "('c \<Rightarrow> 'a list) \<Rightarrow> nat \<Rightarrow> 'c list \<Rightarrow> (nat \<times> 'a) list" where
  "extract_all extract_claims max_claims cands =
     concat (map (\<lambda>(i, c). map (Pair i) (take max_claims (extract_claims c)))
       (enumerate 0 cands))"

text \<open>
  Modelled from the spec: the claims of a request (section 3): an id, the candidate of
  origin and the span.
\<close>

definition claims_of :: "('c \<Rightarrow> 'a list) \<Rightarrow> nat \<Rightarrow> 'c list \<Rightarrow> 'a Claim list" where
  "claims_of extract_claims max_claims cands =
     map (\<lambda>(n, (i, s)). \<lparr>claim_id = n, source_candidate_id = i, span = s\<rparr>)
       (enumerate 0 (extract_all extract_claims max_claims cands))"

text \<open>
  Modelled from the spec: the pairs the builder compares (4.3): each claim with the later
  claims of the other candidates, the pairs within a candidate skipped.
\<close>

fun cross_pairs :: "'a Claim list \<Rightarrow> ('a Claim \<times> 'a Claim) list" where
  "cross_pairs [] = []"
| "cross_pairs (c # cs) =
     map (Pair c) (filter (\<lambda>d. source_candidate_id d \<noteq> source_candidate_id c) cs)
       @ cross_pairs cs"

text \<open>
  Modelled from the spec: the graph (4.3): the entailment adapter is invoked on each pair,
  giving a labelled, weighted edge. The invocations of the adapter are the pairs of the
  edges, in order.
\<close>

definition build_graph ::
    "('a Claim \<Rightarrow> 'a Claim \<Rightarrow> label \<times> real) \<Rightarrow> ('c \<Rightarrow> 'a list) \<Rightarrow> nat \<Rightarrow> 'c list \<Rightarrow>
     ('a Claim \<times> 'a Claim \<times> label \<times> real) list" where
  "build_graph entail extract_claims max_claims cands =
     map (\<lambda>(a, b). (a, b, entail a b))
       (cross_pairs (claims_of extract_claims max_claims cands))"

text \<open>
  Modelled from the spec: the invocations of the entailment adapter that built a graph:
  one per edge, on the two claims of the edge.
\<close>

definition entail_calls ::
    "('a Claim \<times> 'a Claim \<times> label \<times> real) list \<Rightarrow> ('a Claim \<times> 'a Claim) list" where
  "entail_calls g = map (\<lambda>(a, b, e). (a, b)) g"

text \<open>Three candidates of two, one and two sentences, and an adapter, for the examples.\<close>

definition sample_candidates :: "string list list" where
  "sample_candidates = [[''a1'', ''a2''], [''b1''], [''c1'', ''c2'']]"

definition sample_entail :: "string Claim \<Rightarrow> string Claim \<Rightarrow> label \<times> real" where
  "sample_entail a b = (if hd (span a) = hd (span b) then (Entail, 1) else (Neutral, 1 / 2))"

section \<open>Theorems\<close>

subsection \<open>check-site.sh\<close>

lemma check_site_exit:
  "snd (check_site u h1 h2) = (if h1 \<noteq> 200 then 2 else if h2 \<noteq> 200 then 3 else 0)"
  by (simp add: check_site_def Let_def)

lemma check_site_banner:
  "''Both pages returned 200 OK'' \<in> set (fst (check_site u h1 h2)) \<longleftrightarrow> h1 = 200 \<and> h2 = 200"
  by (auto simp: check_site_def Let_def)

text \<open>
  C9. Given the two probed statuses, the script exits with 2 when the index status is not
  200, with 3 when the index status is 200 and the evidence status is not, and it prints
  "Both pages returned 200 OK" and exits with 0 exactly when both statuses are 200.
\<close>

theorem check_site_exit_codes:
  "(h1 \<noteq> 200 \<longrightarrow> snd (check_site u h1 h2) = 2) \<and>
   (h1 = 200 \<and> h2 \<noteq> 200 \<longrightarrow> snd (check_site u h1 h2) = 3) \<and>
   ((''Both pages returned 200 OK'' \<in> set (fst (check_site u h1 h2)) \<and>
     snd (check_site u h1 h2) = 0) \<longleftrightarrow> (h1 = 200 \<and> h2 = 200))"
  by (auto simp: check_site_exit check_site_banner)

theorem check_site_exit_codes_witness:
  "snd (check_site ''https://apmorey93.github.io/mstack'' 404 200) = 2 \<and>
   snd (check_site ''https://apmorey93.github.io/mstack'' 200 500) = 3 \<and>
   check_site ''https://apmorey93.github.io/mstack'' 200 200 =
     ([''Checking https://apmorey93.github.io/mstack'', ''Both pages returned 200 OK''], 0)"
  using check_site_exit_codes [of 404 "''https://apmorey93.github.io/mstack''" 200]
    check_site_exit_codes [of 200 "''https://apmorey93.github.io/mstack''" 500]
    check_site_exit_codes [of 200 "''https://apmorey93.github.io/mstack''" 200]
  by (simp add: check_site_def)

subsection \<open>The dual update\<close>

text \<open>
  C4. After every update both dual variables are non-negative, whatever the prior values,
  the step size, the observations and the caps are (so in particular for non-negative
  priors and a positive step size).
\<close>

theorem update_duals_nonneg:
  "0 \<le> lambda (update_duals ds eta observed_cost B observed_risk alpha) \<and>
   0 \<le> mu (update_duals ds eta observed_cost B observed_risk alpha)"
  by (simp add: update_duals_def dual_step_def)

subsection \<open>Rounding to a double\<close>

lemma bits_bounds:
  "0 < p \<Longrightarrow> 0 < bits p \<and> 2 ^ nat (bits p - 1) \<le> p \<and> p < 2 ^ nat (bits p)"
proof (induction p rule: bits.induct)
  case (1 p)
  show ?case
  proof (cases "p div 2 \<le> 0")
    case True
    with "1.prems" have "p = 1" by linarith
    then show ?thesis by (simp add: bits.simps [of 1] bits.simps [of 0])
  next
    case False
    then have pos: "0 < p div 2" by simp
    let ?b = "bits (p div 2)"
    have ih: "0 < ?b" "2 ^ nat (?b - 1) \<le> p div 2" "p div 2 < 2 ^ nat ?b"
      using "1.IH" "1.prems" pos by simp_all
    have b: "bits p = 1 + ?b"
      using "1.prems" by (simp add: bits.simps [of p])
    have two: "(2::int) ^ nat ?b = 2 * 2 ^ nat (?b - 1)"
      using ih(1) by (metis Suc_nat_eq_nat_zadd1 add.commute diff_add_cancel diff_ge_0_iff_ge int_one_le_iff_zero_less power_Suc)
    have "2 ^ nat ?b \<le> p" using two ih(2) by linarith
    moreover have "p < 2 * 2 ^ nat ?b" using ih(3) by linarith
    moreover have "(2::int) ^ nat (1 + ?b) = 2 * 2 ^ nat ?b"
      using ih(1) by (simp add: nat_add_distrib)
    ultimately show ?thesis using b ih(1) by simp
  qed
qed


lemma ilog2_le:
  assumes "0 < x"
  shows "2 powi ilog2 x \<le> x"
proof -
  obtain p q where pq: "quotient_of x = (p, q)" by (cases "quotient_of x")
  then have q: "0 < q" and x: "x = of_int p / of_int q"
    by (simp_all add: quotient_of_denom_pos quotient_of_div)
  from assms q x have p: "0 < p"
    by (simp add: zero_less_divide_iff)
  let ?e = "bits p - bits q"
  show ?thesis
  proof (cases "2 powi ?e \<le> x")
    case True
    then show ?thesis by (simp add: ilog2_def pq)
  next
    case False
    have bp: "0 < bits p" "2 ^ nat (bits p - 1) \<le> p" using bits_bounds [OF p] by simp_all
    have bq: "0 < bits q" "q < 2 ^ nat (bits q)" using bits_bounds [OF q] by simp_all
    have "(2::rat) powi (bits p - 1) = of_int (2 ^ nat (bits p - 1))"
      using bp(1) by (simp add: power_int_def)
    then have lo: "(2::rat) powi (bits p - 1) \<le> of_int p"
      using bp(2) by (metis of_int_le_iff)
    have "(2::rat) powi bits q = of_int (2 ^ nat (bits q))"
      using bq(1) by (simp add: power_int_def)
    then have hi: "of_int q \<le> (2::rat) powi bits q"
      using bq(2) by (metis less_imp_le of_int_le_iff)
    have "(2::rat) powi (?e - 1) = 2 powi (bits p - 1) / 2 powi bits q"
      by (simp add: power_int_diff [symmetric] algebra_simps)
    also have "\<dots> \<le> of_int p / 2 powi bits q"
      using lo by (simp add: divide_right_mono)
    also have "\<dots> \<le> of_int p / of_int q"
      using hi p q by (simp add: frac_le)
    also have "\<dots> = x" using x by simp
    finally have "(2::rat) powi (?e - 1) \<le> x" .
    moreover have "ilog2 x = ?e - 1"
      using False by (simp add: ilog2_def pq)
    ultimately show ?thesis by simp
  qed
qed

lemma ilog2_small: "0 < x \<Longrightarrow> x < 2 \<Longrightarrow> ilog2 x \<le> 0"
proof -
  assume x: "0 < x" "x < 2"
  have "(2::rat) powi ilog2 x < 2 powi 1"
    using ilog2_le [OF x(1)] x(2) by simp
  then have "ilog2 x < 1"
    by (rule power_int_le_imp_less_exp [rotated]) simp_all
  then show ?thesis by simp
qed

lemma ties_even_error: "\<bar>of_int (ties_even y) - y\<bar> \<le> 1 / 2"
proof -
  have "of_int \<lfloor>y\<rfloor> \<le> y" "y < of_int \<lfloor>y\<rfloor> + 1" by linarith+
  then show ?thesis
    by (auto simp: ties_even_def Let_def abs_le_iff)
qed

lemma ties_even_nonneg: "0 \<le> y \<Longrightarrow> 0 \<le> ties_even y"
  by (auto simp: ties_even_def Let_def)

lemma rd_nonneg: "0 \<le> x \<Longrightarrow> 0 \<le> rd x"
  by (auto simp: rd_def Let_def intro!: mult_nonneg_nonneg ties_even_nonneg divide_nonneg_pos)

lemma rd_error:
  assumes "\<bar>x\<bar> < 2"
  shows "\<bar>rd x - x\<bar> \<le> 1 / 2 ^ 53"
proof (cases "x = 0")
  case True
  then show ?thesis by (simp add: rd_def)
next
  case False
  let ?e = "max (ilog2 \<bar>x\<bar>) (- 1022)"
  let ?u = "(2::rat) powi (?e - 52)"
  have u: "0 < ?u" by simp
  have "?e \<le> 0"
    using ilog2_small [of "\<bar>x\<bar>"] False assms by simp
  then have "?u \<le> 2 powi (- 52)"
    by (intro power_int_increasing) simp_all
  moreover have "(2::rat) powi (- 52) = 1 / 2 ^ 52"
    by (simp add: power_int_minus inverse_eq_divide)
  ultimately have ub: "?u \<le> 1 / 2 ^ 52"
    by (simp only:)
  have "rd x - x = (of_int (ties_even (x / ?u)) - x / ?u) * ?u"
    using False u by (simp add: rd_def Let_def algebra_simps)
  then have "\<bar>rd x - x\<bar> = \<bar>of_int (ties_even (x / ?u)) - x / ?u\<bar> * ?u"
    using u by (simp add: abs_mult)
  also have "\<dots> \<le> 1 / 2 * ?u"
    using ties_even_error [of "x / ?u"] u by (intro mult_right_mono) simp_all
  also have "\<dots> \<le> 1 / 2 * (1 / 2 ^ 52)"
    using ub by simp
  finally show ?thesis by simp
qed

lemma half_ulp_bounds: "0 < half_ulp" "half_ulp < 1 / 100"
  by (simp_all add: half_ulp_def)

lemma rd_close: "\<bar>x\<bar> < 2 \<Longrightarrow> \<bar>rd x - x\<bar> \<le> half_ulp"
  unfolding half_ulp_def by (rule rd_error)

lemma fmul_close:
  assumes "0 \<le> w0" "w0 \<le> 1" "0 \<le> a" "a \<le> 1"
  shows "\<bar>fmul (rd w0) a - w0 * a\<bar> \<le> 2 * half_ulp \<and> 0 \<le> fmul (rd w0) a"
proof -
  have w0: "\<bar>w0\<bar> < 2" using assms by linarith
  have w: "\<bar>rd w0 - w0\<bar> \<le> half_ulp" "0 \<le> rd w0"
    using assms rd_close [OF w0] by (simp_all add: rd_nonneg)
  have "\<bar>rd w0 * a - w0 * a\<bar> = \<bar>rd w0 - w0\<bar> * a"
    using assms by (simp add: abs_mult left_diff_distrib [symmetric])
  also have "\<dots> \<le> half_ulp * 1"
    using w(1) assms half_ulp_bounds by (intro mult_mono) simp_all
  finally have d: "\<bar>rd w0 * a - w0 * a\<bar> \<le> half_ulp" by simp
  have "w0 * a \<le> 1 * 1" using assms by (intro mult_mono) simp_all
  moreover have "0 \<le> rd w0 * a" using w(2) assms by simp
  ultimately have small: "\<bar>rd w0 * a\<bar> < 2"
    using d half_ulp_bounds by linarith
  have "\<bar>rd (rd w0 * a) - rd w0 * a\<bar> \<le> half_ulp"
    using small by (rule rd_close)
  with d have "\<bar>rd (rd w0 * a) - w0 * a\<bar> \<le> 2 * half_ulp" by linarith
  moreover have "0 \<le> rd (rd w0 * a)"
    using w(2) assms by (intro rd_nonneg) simp
  ultimately show ?thesis by (simp add: fmul_def)
qed

lemma fadd_close:
  assumes "\<bar>x - x0\<bar> \<le> dx" "\<bar>y - y0\<bar> \<le> dy" "\<bar>x + y\<bar> < 2"
  shows "\<bar>fadd x y - (x0 + y0)\<bar> \<le> dx + dy + half_ulp"
proof -
  have "\<bar>rd (x + y) - (x + y)\<bar> \<le> half_ulp"
    using assms(3) by (rule rd_close)
  with assms(1,2) show ?thesis unfolding fadd_def by linarith
qed

lemma risk_estimate_close:
  assumes "0 \<le> a" "a \<le> 1" "0 \<le> b" "b \<le> 1" "0 \<le> c" "c \<le> 1"
  shows "\<bar>risk_estimate a b c - (3 / 10 * a + 4 / 10 * b + 3 / 10 * c)\<bar> \<le> 9 * half_ulp"
proof -
  let ?t1 = "fmul (rd (3 / 10)) a" and ?t2 = "fmul (rd (4 / 10)) b" and ?t3 = "fmul (rd (3 / 10)) c"
  let ?x1 = "3 / 10 * a" and ?x2 = "4 / 10 * b" and ?x3 = "3 / 10 * c"
  note h = half_ulp_bounds
  have t1: "\<bar>?t1 - ?x1\<bar> \<le> 2 * half_ulp"
    using fmul_close [of "3 / 10" a] assms by simp
  have t2: "\<bar>?t2 - ?x2\<bar> \<le> 2 * half_ulp"
    using fmul_close [of "4 / 10" b] assms by simp
  have t3: "\<bar>?t3 - ?x3\<bar> \<le> 2 * half_ulp"
    using fmul_close [of "3 / 10" c] assms by simp
  have x1: "0 \<le> ?x1" "?x1 \<le> 3 / 10" using assms by simp_all
  have x2: "0 \<le> ?x2" "?x2 \<le> 4 / 10" using assms by simp_all
  have x3: "0 \<le> ?x3" "?x3 \<le> 3 / 10" using assms by simp_all
  have z: "\<bar>(0::rat) - 0\<bar> \<le> 0" by simp
  let ?s1 = "fadd 0 ?t1"
  have b1: "\<bar>0 + ?t1\<bar> < 2" using t1 x1 h by linarith
  have s1: "\<bar>?s1 - (0 + ?x1)\<bar> \<le> 0 + 2 * half_ulp + half_ulp"
    by (rule fadd_close [OF z t1 b1])
  let ?s2 = "fadd ?s1 ?t2"
  have b2: "\<bar>?s1 + ?t2\<bar> < 2" using s1 t2 x1 x2 h by linarith
  have s2: "\<bar>?s2 - (0 + ?x1 + ?x2)\<bar> \<le> 0 + 2 * half_ulp + half_ulp + 2 * half_ulp + half_ulp"
    by (rule fadd_close [OF s1 t2 b2])
  have b3: "\<bar>?s2 + ?t3\<bar> < 2" using s2 t3 x1 x2 x3 h by linarith
  have "\<bar>fadd ?s2 ?t3 - (0 + ?x1 + ?x2 + ?x3)\<bar>
      \<le> 0 + 2 * half_ulp + half_ulp + 2 * half_ulp + half_ulp + 2 * half_ulp + half_ulp"
    by (rule fadd_close [OF s2 t3 b3])
  then show ?thesis unfolding risk_estimate_def by linarith
qed

lemma sample_estimates:
  "risk_estimate 0 1 1 = 3152519739159347 / 4503599627370496"
  "risk_estimate 1 0 (rd (1 / 10)) = 2972375754064527 / 9007199254740992"
  "rd (33 / 100) = 5944751508129055 / 18014398509481984"
  "rd (33 / 50) = 5944751508129055 / 9007199254740992"
  by code_simp+

subsection \<open>The Dynamic-K selector\<close>

text \<open>
  C3, as stated, fails twice. With no context, the default of the pipeline, the read of
  \<open>ctx.domain\<close> raises and no K is returned. And the estimate is computed in doubles: with
  the terms 1, 0 and 0.1 the combination with the weights 0.3, 0.4 and 0.3 is not below
  0.33, yet the code computes 0.32999999999999996 and returns 1.
\<close>

theorem dynamic_k_raises_or_rounds:
  "dynamic_k (is_long sample_helpers) (retrieval_thin sample_helpers) (domain_risk sample_helpers)
     ''hello'' None = Inl AttributeError \<and>
   dynamic_k (\<lambda>q. 1) (\<lambda>ctx. 0) (\<lambda>d. rd (1 / 10)) ''hello'' (Some \<lparr>domain = ''chat''\<rparr>) = Inr 1 \<and>
   33 / 100 \<le> 3 / 10 * 1 + 4 / 10 * 0 + 3 / 10 * rd (1 / 10)"
  by code_simp

text \<open>
  C3, amended. For every query and every context that is present, with whatever helpers,
  the selector returns the K of the estimate \<open>r\<close> it computes in doubles: 1 when \<open>r\<close> is
  below the double 0.33, 3 when it is not and is below the double 0.66, 5 otherwise. When
  the three terms are in \<open>[0, 1]\<close>, \<open>r\<close> is within \<open>9 / 2^53\<close> of their combination with
  the weights 0.3, 0.4 and 0.3, which are non-negative and sum to 1. K is a function of
  the three terms alone.
\<close>

theorem dynamic_k_present_context:
  "(let a = long_of query; b = thin_of (Some c); d = risk_of (domain c);
        r = risk_estimate a b d
    in dynamic_k long_of thin_of risk_of query (Some c) =
         Inr (if r < rd (33 / 100) then 1 else if r < rd (66 / 100) then 3 else 5) \<and>
       (0 \<le> a \<and> a \<le> 1 \<and> 0 \<le> b \<and> b \<le> 1 \<and> 0 \<le> d \<and> d \<le> 1 \<longrightarrow>
          \<bar>r - (3 / 10 * a + 4 / 10 * b + 3 / 10 * d)\<bar> \<le> 9 / 2 ^ 53)) \<and>
   3 / 10 + 4 / 10 + 3 / 10 = (1 :: rat)"
  using risk_estimate_close [of "long_of query" "thin_of (Some c)" "risk_of (domain c)"]
  by (simp add: dynamic_k_def k_of_risk_def Let_def half_ulp_def)

theorem dynamic_k_present_context_witness:
  "dynamic_k (\<lambda>q. if 200 < length q then 1 else 0) (\<lambda>ctx. 1)
     (\<lambda>d. if d = ''medical'' then 1 else 0) ''is this dose safe?''
     (Some \<lparr>domain = ''medical''\<rparr>) = Inr 5 \<and>
   \<bar>risk_estimate 0 1 1 - 7 / 10\<bar> \<le> 9 / 2 ^ 53 \<and>
   dynamic_k (\<lambda>q. 1) (\<lambda>ctx. 0) (\<lambda>d. rd (1 / 10)) ''hello'' (Some \<lparr>domain = ''chat''\<rparr>) = Inr 1"
  using dynamic_k_present_context [of "\<lambda>q. if 200 < length q then 1 else 0" "''is this dose safe?''"
      "\<lambda>ctx. 1" "\<lparr>domain = ''medical''\<rparr>" "\<lambda>d. if d = ''medical'' then 1 else 0"]
    dynamic_k_present_context [of "\<lambda>q. 1" "''hello''" "\<lambda>ctx. 0" "\<lparr>domain = ''chat''\<rparr>"
      "\<lambda>d. rd (1 / 10)"]
  by (simp add: Let_def sample_estimates)

subsection \<open>The evidence table\<close>

lemma member_lookup:
  "x \<noteq> None \<Longrightarrow> x \<noteq> Some JNull \<Longrightarrow> member x k = Inr (lookup x k)"
  by (cases x; cases "the x") (simp_all add: lookup_def)

lemma member_opt_lookup: "member_opt x k = Inr (lookup x k)"
  by (cases x; cases "the x") (simp_all add: lookup_def)

lemma truthy_not_nullish: "truthy x \<Longrightarrow> x \<noteq> None \<and> x \<noteq> Some JNull"
  by (cases x; cases "the x") simp_all

lemma member_truthy: "truthy x \<Longrightarrow> member x k = Inr (lookup x k)"
  using member_lookup truthy_not_nullish by blast

lemma guard_has_both:
  "entry \<noteq> None \<Longrightarrow> entry \<noteq> Some JNull \<Longrightarrow> guard entry = Inr (has_both entry)"
  by (simp add: guard_def and_then_def member_lookup has_both_def)

lemma row_cells_expected:
  "has_both entry \<Longrightarrow> entry \<noteq> None \<Longrightarrow> entry \<noteq> Some JNull \<Longrightarrow>
   row_cells E entry d = Inr (expected_row E entry d)"
  by (simp add: row_cells_def and_then_def member_lookup member_truthy member_opt_lookup
      has_both_def expected_row_def percent_def rate_def)

lemma body_expected:
  "entry = map_of (entries results) d \<Longrightarrow> entry \<noteq> None \<Longrightarrow> entry \<noteq> Some JNull \<Longrightarrow>
   body (row_cells E) results d (Some rows) =
     (Some (rows @ (if has_both entry then [expected_row E entry d] else [])), None)"
  by (simp add: body_def guard_has_both row_cells_expected)

lemma loop_expected:
  "(\<And>d. d \<in> set ds \<Longrightarrow> map_of (entries results) d \<noteq> None \<and>
      map_of (entries results) d \<noteq> Some JNull) \<Longrightarrow>
   loop (row_cells E) results ds (Some rows) =
     (Some (rows @ map (\<lambda>d. expected_row E (map_of (entries results) d) d)
        (filter (\<lambda>d. has_both (map_of (entries results) d)) ds)), None)"
proof (induction ds arbitrary: rows)
  case Nil
  show ?case by simp
next
  case (Cons d ds)
  have d: "map_of (entries results) d \<noteq> None" "map_of (entries results) d \<noteq> Some JNull"
    using Cons.prems [of d] by simp_all
  have rest: "\<And>r. loop (row_cells E) results ds (Some r) =
     (Some (r @ map (\<lambda>d. expected_row E (map_of (entries results) d) d)
        (filter (\<lambda>d. has_both (map_of (entries results) d)) ds)), None)"
    using Cons.IH Cons.prems by simp
  show ?case
    by (simp add: body_expected [OF refl d] rest)
qed

lemma digit_0: "digit 0 = CHR ''0''"
  by code_simp

lemma percent_missing: "percent E None = ''0.0%''"
  by (simp add: percent_def toFixed1_def dec.simps digit_0)

text \<open>
  C10. For a results object whose domain values are not \<open>null\<close> (objects are not),
  the guarded version returns without an exception, having appended to the table body one
  row for each key whose entry has a truthy \<open>Base\<close> and a truthy \<open>MStack\<close>, in
  enumeration order, and no other row; and in such a row the cell of a
  \<open>SelfConsistency\<close> or \<open>JudgeGate\<close> whose rate is missing reads \<open>0.0%\<close>.
\<close>

theorem render_rows:
  assumes "\<forall>v \<in> snd ` set kvs. v \<noteq> JNull"
  shows "renderHallucinationTable E (JObj kvs) (Some rows) =
      (Some (rows @ map (\<lambda>d. expected_row E (map_of kvs d) d)
         (filter (\<lambda>d. has_both (map_of kvs d)) (map fst kvs))), None) \<and>
    (\<forall>d. (rate (map_of kvs d) ''SelfConsistency'' = None \<longrightarrow>
            expected_row E (map_of kvs d) d ! 2 = ''0.0%'') \<and>
         (rate (map_of kvs d) ''JudgeGate'' = None \<longrightarrow>
            expected_row E (map_of kvs d) d ! 3 = ''0.0%''))"
proof -
  have "map_of kvs d \<noteq> None \<and> map_of kvs d \<noteq> Some JNull" if "d \<in> set (map fst kvs)" for d
  proof -
    from that obtain v where v: "map_of kvs d = Some v"
      by (metis map_of_eq_None_iff not_Some_eq set_map)
    then have "(d, v) \<in> set kvs" by (rule map_of_SomeD)
    then have "v \<in> snd ` set kvs" by force
    with assms v show ?thesis by auto
  qed
  then have "renderHallucinationTable E (JObj kvs) (Some rows) =
      (Some (rows @ map (\<lambda>d. expected_row E (map_of kvs d) d)
         (filter (\<lambda>d. has_both (map_of kvs d)) (map fst kvs))), None)"
    using loop_expected [of "map fst kvs" "JObj kvs" E rows]
    by (simp add: renderHallucinationTable_def for_in_def)
  then show ?thesis
    by (simp add: expected_row_def percent_missing)
qed

lemma results_partial_rows:
  "map (\<lambda>d. expected_row no_engine (map_of (entries results_partial) d) d)
     (filter (\<lambda>d. has_both (map_of (entries results_partial) d)) (for_in results_partial)) =
   [[''squad2'', ''10.0%'', ''0.0%'', ''0.0%'', ''<strong>5.0%</strong>'']]"
  by code_simp

theorem render_rows_witness:
  "renderHallucinationTable no_engine results_partial (Some []) =
     (Some [[''squad2'', ''10.0%'', ''0.0%'', ''0.0%'', ''<strong>5.0%</strong>'']], None)"
proof -
  obtain kvs where kvs: "results_partial = JObj kvs" and nn: "\<forall>v \<in> snd ` set kvs. v \<noteq> JNull"
    by (simp add: results_partial_def)
  have "renderHallucinationTable no_engine (JObj kvs) (Some []) =
      (Some ([] @ map (\<lambda>d. expected_row no_engine (map_of kvs d) d)
         (filter (\<lambda>d. has_both (map_of kvs d)) (map fst kvs))), None)"
    using render_rows [OF nn, of no_engine "[]"] by blast
  then show ?thesis
    using results_partial_rows by (simp add: kvs for_in_def)
qed

lemma or0_numeric: "numeric E x \<Longrightarrow> or0 (times100 (ToNumber E x)) = times100 (ToNumber E x)"
  by (cases "ToNumber E x") (simp_all add: numeric_def)

lemma guard_cases:
  "guard entry = Inl TypeError \<or> guard entry = Inr False \<or>
   (guard entry = Inr True \<and> has_both entry \<and> present entry)"
proof (cases "present entry")
  case True
  then show ?thesis
    using guard_has_both [of entry] by (auto simp: present_def)
next
  case False
  then have "member entry ''Base'' = Inl TypeError"
    by (auto simp: present_def)
  then show ?thesis by (simp add: guard_def and_then_def)
qed

lemma row_cells_site_eq:
  assumes "has_both entry" "present entry" "complete E entry"
  shows "row_cells_site E entry d = row_cells E entry d"
proof -
  have m: "member entry k = Inr (lookup entry k)" for k
    using assms(2) by (simp add: member_lookup present_def)
  have p: "member (lookup entry ''SelfConsistency'') k = Inr (lookup (lookup entry ''SelfConsistency'') k)"
      "member (lookup entry ''JudgeGate'') k = Inr (lookup (lookup entry ''JudgeGate'') k)" for k
    using assms(3) by (simp_all add: complete_def present_def member_lookup)
  have n: "or0 (times100 (ToNumber E (rate entry ''Base''))) = times100 (ToNumber E (rate entry ''Base''))"
    "or0 (times100 (ToNumber E (rate entry ''SelfConsistency''))) = times100 (ToNumber E (rate entry ''SelfConsistency''))"
    "or0 (times100 (ToNumber E (rate entry ''JudgeGate''))) = times100 (ToNumber E (rate entry ''JudgeGate''))"
    "or0 (times100 (ToNumber E (rate entry ''MStack''))) = times100 (ToNumber E (rate entry ''MStack''))"
    using assms(3) by (simp_all add: complete_def or0_numeric)
  show ?thesis
    using n assms(1)
    by (simp add: row_cells_site_def row_cells_def and_then_def m p member_opt_lookup
        member_truthy has_both_def rate_def)
qed

lemma body_site_eq:
  assumes "has_both (map_of (entries results) d) \<Longrightarrow> complete E (map_of (entries results) d)"
  shows "body (row_cells_site E) results d tb = body (row_cells E) results d tb"
  using guard_cases [of "map_of (entries results) d"] assms
  by (auto simp: body_def row_cells_site_eq split: option.splits)

lemma loop_site_eq:
  "(\<And>d. d \<in> set ds \<Longrightarrow> has_both (map_of (entries results) d) \<Longrightarrow>
      complete E (map_of (entries results) d)) \<Longrightarrow>
   loop (row_cells_site E) results ds tb = loop (row_cells E) results ds tb"
proof (induction ds arbitrary: tb)
  case Nil
  show ?case by simp
next
  case (Cons d ds)
  have "body (row_cells_site E) results d tb = body (row_cells E) results d tb"
    using Cons.prems [of d] by (intro body_site_eq) simp
  moreover have "loop (row_cells_site E) results ds t = loop (row_cells E) results ds t" for t
    using Cons.IH Cons.prems by simp
  ultimately show ?case by simp
qed

text \<open>
  C8, as stated, fails: on a domain entry with \<open>Base\<close> and \<open>MStack\<close> and without
  \<open>SelfConsistency\<close> and \<open>JudgeGate\<close>, the version of \<open>mstack-site/evidence.js\<close>
  throws a TypeError after \<open>insertRow\<close> has added an empty row, and the guarded version
  adds a row with \<open>0.0%\<close> in the two cells.
\<close>

theorem renderers_differ_on_partial:
  "renderHallucinationTable_site no_engine results_partial (Some []) = (Some [[]], Some TypeError) \<and>
   renderHallucinationTable no_engine results_partial (Some []) =
     (Some [[''squad2'', ''10.0%'', ''0.0%'', ''0.0%'', ''<strong>5.0%</strong>'']], None) \<and>
   renderHallucinationTable_site no_engine results_partial (Some []) \<noteq>
     renderHallucinationTable no_engine results_partial (Some [])"
  by code_simp

text \<open>
  C8, amended. The two versions return the same table body and the same outcome for every
  results value in which each entry that gets a row (truthy \<open>Base\<close> and \<open>MStack\<close>) is
  complete: its \<open>SelfConsistency\<close> and \<open>JudgeGate\<close> are neither missing nor \<open>null\<close>,
  and its four rates convert to numbers other than \<open>NaN\<close>.
\<close>

theorem renderers_agree_on_complete:
  assumes "\<forall>d \<in> set (for_in results). has_both (map_of (entries results) d) \<longrightarrow>
     complete E (map_of (entries results) d)"
  shows "renderHallucinationTable_site E results tb = renderHallucinationTable E results tb"
  using assms loop_site_eq [of "for_in results" results E tb]
  by (simp add: renderHallucinationTable_site_def renderHallucinationTable_def)

lemma results_full_complete:
  "\<forall>d \<in> set (for_in results_full). has_both (map_of (entries results_full) d) \<longrightarrow>
     complete no_engine (map_of (entries results_full) d)"
  by code_simp

lemma results_full_rows:
  "renderHallucinationTable no_engine results_full (Some []) =
     (Some [[''squad2'', ''10.0%'', ''8.0%'', ''7.5%'', ''<strong>5.0%</strong>'']], None)"
  by code_simp

theorem renderers_agree_on_complete_witness:
  "renderHallucinationTable_site no_engine results_full (Some []) =
     (Some [[''squad2'', ''10.0%'', ''8.0%'', ''7.5%'', ''<strong>5.0%</strong>'']], None)"
  using renderers_agree_on_complete [OF results_full_complete, of "Some []"] results_full_rows
  by simp

subsection \<open>The orchestrator\<close>






subsection \<open>The fail-safe inputs\<close>

text \<open>
  C2, as stated, fails on the decision rule. With judge 0, contradiction mass 1 and
  coverage 0, a context supplied, a threshold of 0.5 and verify budget left, the first
  rule decides verify, not abstain. And with a high-water mark of 1 and the start-up
  threshold 0 neither of the first two rules applies, and the third decides emit.
\<close>

theorem worst_case_decides_verify:
  "judge (snd worst_inputs) = 0 \<and> contradiction_mass (fst worst_inputs) = 1 \<and>
   rag_coverage (fst worst_inputs) = 0 \<and>
   decide policy0 thresholds0 request0 remaining0 worst_inputs = Verify \<and>
   decide policy0 thresholds0 request0 remaining0 worst_inputs \<noteq> Abstain \<and>
   decide (policy0\<lparr>high_water := 1\<rparr>) startup request0 remaining0 worst_inputs = Emit"
  by code_simp

text \<open>
  C2, amended. With a high-water mark below 1, under judge 0, contradiction mass 1 and
  coverage 0 the controller does not decide emit, whatever the budgets: with the threshold
  above 0 and a context supplied it decides verify if verify budget remains and abstain
  if not; otherwise it decides revise if revision budget remains and abstain if not.
\<close>

theorem worst_case_never_emit:
  assumes "high_water P < 1"
    and "judge (snd x) = 0" and "contradiction_mass (fst x) = 1" and "rag_coverage (fst x) = 0"
  shows "decide P th req rem x =
      (if 0 < tau_used th \<and> context_supplied req
       then (if 0 < verify_budget rem then Verify else Abstain)
       else (if 0 < revise_budget rem then Revise else Abstain)) \<and>
    decide P th req rem x \<noteq> Emit"
  using assms by (simp add: decide_def)

theorem worst_case_never_emit_witness:
  "decide policy0 thresholds0 request0
     \<lparr>verify_budget = 0, revise_budget = 0, remaining_budget = 2000\<rparr> worst_inputs = Abstain \<and>
   decide policy0 startup request0 remaining0 worst_inputs = Revise"
proof -
  have h: "high_water policy0 < 1" by (simp add: policy0_def)
  have w: "judge (snd worst_inputs) = 0" "contradiction_mass (fst worst_inputs) = 1"
      "rag_coverage (fst worst_inputs) = 0"
    by (simp_all add: worst_inputs_def)
  show ?thesis
    using worst_case_never_emit [OF h w, of thresholds0 request0
        "\<lparr>verify_budget = 0, revise_budget = 0, remaining_budget = 2000\<rparr>"]
      worst_case_never_emit [OF h w, of startup request0 remaining0]
    by (simp add: thresholds0_def startup_def request0_def remaining0_def)
qed

subsection \<open>The audit log\<close>

lemma audit_log_snoc:
  "audit_log H g (cs @ [c]) = append_record H g (audit_log H g cs) c"
  by (simp add: audit_log_def)

lemma length_audit_log: "length (audit_log H g cs) = length cs"
  by (induction cs rule: rev_induct) (simp_all add: audit_log_snoc append_record_def audit_log_def)

lemma audit_log_empty: "audit_log H g cs = [] \<longleftrightarrow> cs = []"
  using length_audit_log [of H g cs] by (metis length_0_conv)

lemma content_audit_log: "map content (audit_log H g cs) = cs"
  by (induction cs rule: rev_induct) (simp_all add: audit_log_snoc append_record_def audit_log_def)

lemma audit_log_first:
  "cs \<noteq> [] \<Longrightarrow> prev_hash (audit_log H g cs ! 0) = g"
proof (induction cs rule: rev_induct)
  case Nil
  then show ?case by simp
next
  case (snoc c cs)
  show ?case
  proof (cases "cs = []")
    case True
    then show ?thesis by (simp add: audit_log_def append_record_def)
  next
    case False
    then have "audit_log H g cs \<noteq> []"
      by (simp add: audit_log_empty)
    with snoc False show ?thesis
      by (simp add: audit_log_snoc append_record_def nth_append)
  qed
qed

lemma audit_log_link:
  "Suc i < length cs \<Longrightarrow> pair_ok H (audit_log H g cs) i"
proof (induction cs rule: rev_induct)
  case Nil
  then show ?case by simp
next
  case (snoc c cs)
  let ?lg = "audit_log H g cs"
  have len: "length ?lg = length cs" by (rule length_audit_log)
  show ?case
  proof (cases "Suc i < length cs")
    case True
    with snoc.IH have "pair_ok H ?lg i" by simp
    with True len show ?thesis
      by (simp add: audit_log_snoc append_record_def pair_ok_def nth_append)
  next
    case False
    with snoc.prems have i: "length cs = Suc i" by simp
    then have ne: "?lg \<noteq> []" using len by auto
    have "last ?lg = ?lg ! i"
      using i len ne by (simp add: last_conv_nth)
    with i len ne show ?thesis
      by (simp add: audit_log_snoc append_record_def pair_ok_def nth_append)
  qed
qed

lemma audit_log_chain_ok: "chain_ok H g (audit_log H g cs)"
proof -
  have "audit_log H g cs \<noteq> [] \<Longrightarrow> prev_hash (hd (audit_log H g cs)) = g"
    using audit_log_first [of cs H g] by (simp add: hd_conv_nth audit_log_empty)
  moreover have "list_all (pair_ok H (audit_log H g cs)) [0..<length (audit_log H g cs) - 1]"
    using audit_log_link [of _ cs H g] by (auto simp: list_all_iff length_audit_log)
  ultimately show ?thesis by (auto simp: chain_ok_def)
qed

lemma tamper_breaks_link:
  assumes "Suc i < length lg" "pair_ok H lg i" "H r \<noteq> H (lg ! i)"
  shows "\<not> pair_ok H (lg[i := r]) i"
  using assms by (simp add: pair_ok_def)

lemma sample_log_records:
  "sample_log =
     [\<lparr>content = ''emit q1'', prev_hash = ''genesis''\<rparr>,
      \<lparr>content = ''abstain q2'', prev_hash = ''emit q1<genesis''\<rparr>]"
  by (simp add: sample_log_def audit_log_def append_record_def tag_hash_def)

text \<open>
  C5, as stated, fails for the last record: no adjacent pair at or after it holds its
  hash, so a change of its content passes every check of the chain.
\<close>

theorem last_record_unprotected:
  "map content tampered_log \<noteq> map content sample_log \<and>
   chain_ok tag_hash ''genesis'' tampered_log \<and>
   pair_ok tag_hash tampered_log 0"
  by (simp add: tampered_log_def sample_log_records tag_hash_def chain_ok_def pair_ok_def)

text \<open>
  C5, amended. In every log the logger produces, the first record carries the genesis
  value and each later record the hash of the record before it; and replacing a stored
  record that has a successor by one of a different hash makes the check of the pair it
  forms with its successor fail, so the chain is no longer valid.
\<close>

theorem chain_detects:
  "chain_ok H g (audit_log H g cs) \<and>
   (\<forall>i. Suc i < length cs \<longrightarrow>
      prev_hash (audit_log H g cs ! Suc i) = H (audit_log H g cs ! i)) \<and>
   (cs \<noteq> [] \<longrightarrow> prev_hash (audit_log H g cs ! 0) = g) \<and>
   (\<forall>i r. Suc i < length cs \<and> H r \<noteq> H (audit_log H g cs ! i) \<longrightarrow>
      \<not> pair_ok H ((audit_log H g cs)[i := r]) i \<and>
      \<not> chain_ok H g ((audit_log H g cs)[i := r]))"
proof -
  have a: "Suc i < length cs \<Longrightarrow> prev_hash (audit_log H g cs ! Suc i) = H (audit_log H g cs ! i)"
    for i
    using audit_log_link [of i cs H g] by (simp add: pair_ok_def)
  have b: "\<not> pair_ok H ((audit_log H g cs)[i := r]) i \<and>
      \<not> chain_ok H g ((audit_log H g cs)[i := r])"
    if "Suc i < length cs" "H r \<noteq> H (audit_log H g cs ! i)" for i r
  proof -
    have "\<not> pair_ok H ((audit_log H g cs)[i := r]) i"
      using that audit_log_link [of i cs H g]
      by (intro tamper_breaks_link) (simp_all add: length_audit_log)
    moreover have "i \<in> set [0..<length ((audit_log H g cs)[i := r]) - 1]"
      using that by (simp add: length_audit_log)
    ultimately show ?thesis
      by (auto simp: chain_ok_def list_all_iff)
  qed
  show ?thesis
    using a b audit_log_first [of cs H g] audit_log_chain_ok [of H g cs] by blast
qed

theorem chain_detects_witness:
  "chain_ok tag_hash ''genesis'' sample_log \<and>
   \<not> chain_ok tag_hash ''genesis'' (sample_log[0 := \<lparr>content = ''emit q9'', prev_hash = ''genesis''\<rparr>])"
proof -
  have "Suc 0 < length [''emit q1'', ''abstain q2''] \<and>
      tag_hash \<lparr>content = ''emit q9'', prev_hash = ''genesis''\<rparr> \<noteq>
        tag_hash (audit_log tag_hash ''genesis'' [''emit q1'', ''abstain q2''] ! 0)"
    using sample_log_records by (simp add: sample_log_def tag_hash_def)
  then show ?thesis
    using chain_detects [of tag_hash "''genesis''" "[''emit q1'', ''abstain q2'']"]
    unfolding sample_log_def by blast
qed

subsection \<open>The claim graph\<close>

lemma claim_ids:
  "map claim_id (claims_of extract_claims m cands) =
     [0..<length (extract_all extract_claims m cands)]"
proof -
  have f: "claim_id \<circ> (\<lambda>(n, (i, s)). \<lparr>claim_id = n, source_candidate_id = i, span = s\<rparr>) = fst"
    by (auto simp: fun_eq_iff)
  show ?thesis
    by (simp only: claims_of_def map_map f map_fst_enumerate add_0)
qed

lemma distinct_claims: "distinct (claims_of extract_claims m cands)"
proof -
  have "distinct (map claim_id (claims_of extract_claims m cands))"
    by (simp add: claim_ids)
  then show ?thesis
    by (rule distinct_map [THEN iffD1, THEN conjunct1])
qed

lemma count_map_Pair:
  "count_list (map (Pair c) ys) (a, b) = (if a = c then count_list ys b else 0)"
  by (induction ys) auto

lemma count_filter: "count_list (filter P ys) b = (if P b then count_list ys b else 0)"
  by (induction ys) auto

lemma count_distinct: "distinct ys \<Longrightarrow> count_list ys b = (if b \<in> set ys then 1 else 0)"
  by (induction ys) auto

lemma cross_pairs_subset:
  "(a, b) \<in> set (cross_pairs cs) \<Longrightarrow> a \<in> set cs \<and> b \<in> set cs"
  by (induction cs) auto

lemma count_cross_outside:
  "a \<notin> set cs \<or> b \<notin> set cs \<Longrightarrow> count_list (cross_pairs cs) (a, b) = 0"
  using cross_pairs_subset [of a b cs] by (auto simp: count_list_0_iff)

lemma count_cross_pairs:
  "distinct cs \<Longrightarrow>
   count_list (cross_pairs cs) (a, b) + count_list (cross_pairs cs) (b, a) =
     (if a \<in> set cs \<and> b \<in> set cs \<and> source_candidate_id a \<noteq> source_candidate_id b
      then 1 else 0)"
proof (induction cs)
  case Nil
  show ?case by simp
next
  case (Cons c cs)
  then have d: "distinct cs" and c: "c \<notin> set cs" by simp_all
  note ih = Cons.IH [OF d]
  show ?case
  proof (cases "a = c \<or> b = c")
    case False
    then show ?thesis using ih by (simp add: count_map_Pair)
  next
    case True
    then have out: "count_list (cross_pairs cs) (a, b) = 0" "count_list (cross_pairs cs) (b, a) = 0"
      using c count_cross_outside [of a cs b] count_cross_outside [of b cs a] by auto
    show ?thesis
      using True c out
      by (auto simp: count_map_Pair count_filter count_distinct [OF d])
  qed
qed

text \<open>
  C7. For every list of candidates, extractor, adapter and cap, and for any two claims
  \<open>a\<close> and \<open>b\<close>: the entailment adapter is invoked on \<open>a\<close> and \<open>b\<close>, in either order,
  once in all when both are claims of the graph and come from different candidates, and
  never otherwise; so never on two claims of one candidate and never twice on an unordered
  pair.
\<close>

theorem entail_once_per_cross_pair:
  "(let claims = claims_of extract_claims max_claims cands;
        calls = entail_calls (build_graph entail extract_claims max_claims cands)
    in count_list calls (a, b) + count_list calls (b, a) =
         (if a \<in> set claims \<and> b \<in> set claims \<and> source_candidate_id a \<noteq> source_candidate_id b
          then 1 else 0))"
proof -
  have "entail_calls (build_graph entail extract_claims max_claims cands) =
      cross_pairs (claims_of extract_claims max_claims cands)"
    by (simp add: entail_calls_def build_graph_def split_def comp_def)
  then show ?thesis
    using count_cross_pairs [OF distinct_claims, of extract_claims max_claims cands a b]
    by (simp add: Let_def)
qed

lemma sample_calls:
  "map (\<lambda>(a, b). (span a, span b))
     (entail_calls (build_graph sample_entail (\<lambda>c. c) 2 sample_candidates)) =
   [(''a1'', ''b1''), (''a1'', ''c1''), (''a1'', ''c2''), (''a2'', ''b1''), (''a2'', ''c1''),
    (''a2'', ''c2''), (''b1'', ''c1''), (''b1'', ''c2'')]"
  by code_simp

theorem entail_once_per_cross_pair_witness:
  "count_list (entail_calls (build_graph sample_entail (\<lambda>c. c) 2 sample_candidates))
     (\<lparr>claim_id = 0, source_candidate_id = 0, span = ''a1''\<rparr>,
      \<lparr>claim_id = 2, source_candidate_id = 1, span = ''b1''\<rparr>) = 1 \<and>
   count_list (entail_calls (build_graph sample_entail (\<lambda>c. c) 2 sample_candidates))
     (\<lparr>claim_id = 2, source_candidate_id = 1, span = ''b1''\<rparr>,
      \<lparr>claim_id = 0, source_candidate_id = 0, span = ''a1''\<rparr>) = 0"
proof -
  have "count_list (entail_calls (build_graph sample_entail (\<lambda>c. c) 2 sample_candidates))
     (\<lparr>claim_id = 2, source_candidate_id = 1, span = ''b1''\<rparr>,
      \<lparr>claim_id = 0, source_candidate_id = 0, span = ''a1''\<rparr>) = 0"
    by code_simp
  moreover have "\<lparr>claim_id = 0, source_candidate_id = 0, span = ''a1''\<rparr>
      \<in> set (claims_of (\<lambda>c. c) 2 sample_candidates) \<and>
    \<lparr>claim_id = 2, source_candidate_id = 1, span = ''b1''\<rparr>
      \<in> set (claims_of (\<lambda>c. c) 2 sample_candidates)"
    by code_simp
  ultimately show ?thesis
    using entail_once_per_cross_pair [of "\<lambda>c. c" 2 sample_candidates sample_entail
        "\<lparr>claim_id = 0, source_candidate_id = 0, span = ''a1''\<rparr>"
        "\<lparr>claim_id = 2, source_candidate_id = 1, span = ''b1''\<rparr>"]
    by (simp add: Let_def)
qed

end
